theory Spec2Isabelle
  imports Complex_Main "HOL-Library.Sublist"
begin

section \<open>RestWithGPS: the track-analysis pipeline of restwithgps.py\<close>

text \<open>
  The embedding follows \<^verbatim>\<open>src/restwithgps/restwithgps.py\<close>.

  \<^item> A \<^verbatim>\<open>datetime.datetime\<close> is the number of microseconds since a fixed origin and a
    \<^verbatim>\<open>datetime.timedelta\<close> a number of microseconds, both \<open>int\<close>: the resolution of
    Python's datetime is one microsecond, and differences and comparisons are exact.
    The upper limit of the calendar (year 9999) is not modelled.
  \<^item> A Python \<^verbatim>\<open>float\<close> is a \<open>real\<close>: infinities and NaN are not modelled, and
    rounding is modelled in one place, the sum whose arc cosine \<^verbatim>\<open>get_distance\<close> takes,
    by a rounding function that is a parameter of \<open>get_distance\<close>.
  \<^item> An exception is a value of type \<open>error\<close>, a function that can raise returns
    \<open>error + 'a\<close>.
  \<^item> A generator is the list of the values it yields.
\<close>

subsection \<open>Time\<close>

type_synonym datetime = int
type_synonym timedelta = int

definition timedelta_seconds :: "int \<Rightarrow> timedelta" where
  \<comment> \<open>\<^verbatim>\<open>datetime.timedelta(seconds=n)\<close>\<close>
  "timedelta_seconds n = n * 1000000"

definition timedelta_minutes :: "int \<Rightarrow> timedelta" where
  \<comment> \<open>\<^verbatim>\<open>datetime.timedelta(minutes=n)\<close>\<close>
  "timedelta_minutes n = n * 60 * 1000000"

definition timedelta_hours :: "int \<Rightarrow> timedelta" where
  \<comment> \<open>\<^verbatim>\<open>datetime.timedelta(hours=n)\<close>\<close>
  "timedelta_hours n = n * 3600 * 1000000"

definition seconds :: "timedelta \<Rightarrow> int" where
  \<comment> \<open>The attribute \<^verbatim>\<open>.seconds\<close> of a normalised timedelta (days, seconds, microseconds
      with \<open>0 \<le> seconds < 86400\<close>): the days and the microseconds are dropped.\<close>
  "seconds d = (d div 1000000) mod 86400"

definition total_seconds :: "timedelta \<Rightarrow> real" where
  \<comment> \<open>The method \<^verbatim>\<open>.total_seconds()\<close>, which the source never calls.\<close>
  "total_seconds d = real_of_int d / 1000000"

subsection \<open>Constants and data (lines 11-32)\<close>

definition POINT_INTERVAL_TIME :: timedelta where
  "POINT_INTERVAL_TIME = timedelta_seconds 10"

definition MIN_SPEED :: real where
  "MIN_SPEED = 5"

definition MIN_STOP :: timedelta where
  "MIN_STOP = timedelta_minutes 5"

definition TIME_ZONE_DIFF :: timedelta where
  "TIME_ZONE_DIFF = timedelta_hours 2"

definition earth_rad :: real where
  "earth_rad = 6378137 / 1000"

record Point =
  timestamp :: datetime
  latitude :: real
  longitude :: real

record StopPoint =
  latitude :: real
  longitude :: real
  start_time :: datetime
  end_time :: datetime

datatype error = ZeroDivisionError | ValueError

subsection \<open>Functions of Python's math module and builtins\<close>

definition radians :: "real \<Rightarrow> real" where
  "radians x = x * pi / 180"

definition py_acos :: "real \<Rightarrow> error + real" where
  \<comment> \<open>\<^verbatim>\<open>math.acos\<close> raises ValueError outside \<open>[-1, 1]\<close>.\<close>
  "py_acos x = (if - 1 \<le> x \<and> x \<le> 1 then Inr (arccos x) else Inl ValueError)"

definition py_atan2 :: "real \<Rightarrow> real \<Rightarrow> real" where
  \<comment> \<open>\<^verbatim>\<open>math.atan2(y, x)\<close>, with \<open>atan2(0, 0) = 0\<close>.\<close>
  "py_atan2 y x =
     (if 0 < x then arctan (y / x)
      else if x < 0 \<and> 0 \<le> y then arctan (y / x) + pi
      else if x < 0 then arctan (y / x) - pi
      else if 0 < y then pi / 2
      else if y < 0 then - (pi / 2)
      else 0)"

definition py_int :: "real \<Rightarrow> int" where
  \<comment> \<open>\<^verbatim>\<open>int(x)\<close> on a float truncates towards zero.\<close>
  "py_int x = (if 0 \<le> x then \<lfloor>x\<rfloor> else \<lceil>x\<rceil>)"

fun str_nat :: "nat \<Rightarrow> string" where
  "str_nat n =
     (if n < 10 then [''0123456789'' ! n]
      else str_nat (n div 10) @ [''0123456789'' ! (n mod 10)])"

declare str_nat.simps [simp del]

definition str_int :: "int \<Rightarrow> string" where
  \<comment> \<open>\<^verbatim>\<open>str(n)\<close>, as an f-string renders an int.\<close>
  "str_int n = (if n < 0 then CHR ''-'' # str_nat (nat (- n)) else str_nat (nat n))"

subsection \<open>Geometry primitives (lines 39-62)\<close>

definition latlng_to_xyz :: "real \<Rightarrow> real \<Rightarrow> real \<times> real \<times> real" where
  "latlng_to_xyz lat lng =
     (let rlat = radians lat; rlng = radians lng; coslat = cos rlat
      in (coslat * cos rlng, coslat * sin rlng, sin rlat))"

definition dot_xyz :: "real \<times> real \<times> real \<Rightarrow> real \<times> real \<times> real \<Rightarrow> real" where
  \<comment> \<open>\<^verbatim>\<open>sum(x * y for x, y in zip(xyz0, xyz1))\<close>\<close>
  "dot_xyz xyz0 xyz1 =
     (case (xyz0, xyz1) of ((x0, y0, z0), (x1, y1, z1)) \<Rightarrow> 0 + x0 * x1 + y0 * y1 + z0 * z1)"

definition get_distance ::
  "(real \<Rightarrow> real) \<Rightarrow> real \<times> real \<Rightarrow> real \<times> real \<Rightarrow> real \<Rightarrow> real" where
  \<comment> \<open>\<open>rnd\<close> is the rounding of the floating-point evaluation of
      \<^verbatim>\<open>sum(x * y for x, y in zip(xyz0, xyz1))\<close>: the argument that \<^verbatim>\<open>acos\<close> receives is
      \<open>rnd\<close> of the exact sum. The \<^verbatim>\<open>try\<close> of lines 51-54 is the case distinction on
      the result of \<open>py_acos\<close>: \<^verbatim>\<open>except ValueError: return 0.0\<close>.\<close>
  "get_distance rnd pos0 pos1 radious =
     (if pos0 = pos1 then 0
      else
        (let xyz0 = latlng_to_xyz (fst pos0) (snd pos0);
             xyz1 = latlng_to_xyz (fst pos1) (snd pos1)
         in case py_acos (rnd (dot_xyz xyz0 xyz1)) of
              Inr a \<Rightarrow> a * radious
            | Inl e \<Rightarrow> 0))"

definition get_speed :: "real \<Rightarrow> int \<Rightarrow> error + real" where
  \<comment> \<open>\<^verbatim>\<open>km / second * 3600\<close>: the division raises ZeroDivisionError when \<open>second\<close> is 0.\<close>
  "get_speed km second =
     (if second = 0 then Inl ZeroDivisionError
      else Inr (km / real_of_int second * 3600))"

definition get_vector :: "real \<times> real \<Rightarrow> real \<times> real \<Rightarrow> real" where
  "get_vector pos0 pos1 = py_atan2 (fst pos1 - fst pos0) (snd pos1 - snd pos0)"

subsection \<open>The resampler: AbstractPointStream.get_point (lines 74-91)\<close>

definition averaged :: "Point list \<Rightarrow> Point" where
  \<comment> \<open>The Point yielded from a buffer \<^verbatim>\<open>self._points\<close>; the source builds it for a
      non-empty buffer only.\<close>
  "averaged ps =
     \<lparr>timestamp = timestamp (hd ps),
      latitude = sum_list (map Point.latitude ps) / real (length ps),
      longitude = sum_list (map Point.longitude ps) / real (length ps)\<rparr>"

fun get_point_from :: "Point list \<Rightarrow> Point list \<Rightarrow> Point list" where
  \<comment> \<open>\<open>get_point_from buf raw\<close>: what \<^verbatim>\<open>get_point\<close> yields when \<^verbatim>\<open>self._points\<close> is \<open>buf\<close>
      and \<^verbatim>\<open>self._get_point()\<close> yields \<open>raw\<close>.\<close>
  "get_point_from buf [] = (if buf \<noteq> [] then [averaged buf] else [])"
| "get_point_from buf (point # rest) =
     (case buf of
        [] \<Rightarrow> get_point_from (buf @ [point]) rest
      | p0 # _ \<Rightarrow>
          if timestamp point - timestamp p0 < POINT_INTERVAL_TIME
          then get_point_from (buf @ [point]) rest
          else averaged buf # get_point_from [point] rest)"

definition get_point :: "Point list \<Rightarrow> Point list" where
  \<comment> \<open>On a stream object as \<^verbatim>\<open>__init__\<close> leaves it: \<^verbatim>\<open>self._points = []\<close>.\<close>
  "get_point raw = get_point_from [] raw"

subsection \<open>The analyzer: get_stop_points (lines 135-184)\<close>

definition get_speed_from_points :: "Point \<Rightarrow> Point \<Rightarrow> error + real" where
  \<comment> \<open>The analyzer is modelled with the exact sum in \<open>get_distance\<close>: no rounding.\<close>
  "get_speed_from_points point1 point2 =
     (let km = get_distance (\<lambda>d. d) (Point.latitude point1, Point.longitude point1)
                 (Point.latitude point2, Point.longitude point2) earth_rad;
          second = seconds (timestamp point2 - timestamp point1)
      in get_speed km second)"

record analyzer =
  stop_points :: "StopPoint list"
  stop_point :: "StopPoint option"
  prev_point :: "Point option"
  route :: "(real \<times> real) list"
  prev_vector :: real

definition analyzer_init :: analyzer where
  \<comment> \<open>Lines 146-150.\<close>
  "analyzer_init =
     \<lparr>stop_points = [], stop_point = None, prev_point = None, route = [], prev_vector = 0\<rparr>"

definition classify :: "real \<Rightarrow> analyzer \<Rightarrow> Point \<Rightarrow> real \<Rightarrow> analyzer" where
  \<comment> \<open>Lines 155-170, with the speed threshold as a parameter.\<close>
  "classify min_speed s point speed =
     (if speed < min_speed then
        (case stop_point s of
           Some sp \<Rightarrow> s\<lparr>stop_point := Some (sp\<lparr>end_time := timestamp point + TIME_ZONE_DIFF\<rparr>)\<rparr>
         | None \<Rightarrow>
             s\<lparr>stop_point := Some
                 \<lparr>latitude = Point.latitude point,
                  longitude = Point.longitude point,
                  start_time = timestamp point + TIME_ZONE_DIFF,
                  end_time = timestamp point + TIME_ZONE_DIFF\<rparr>\<rparr>)
      else
        (case stop_point s of
           Some sp \<Rightarrow> s\<lparr>stop_points := stop_points s @ [sp], stop_point := None\<rparr>
         | None \<Rightarrow> s))"

definition simplify :: "real \<Rightarrow> analyzer \<Rightarrow> Point \<Rightarrow> Point \<Rightarrow> analyzer" where
  \<comment> \<open>Lines 172-177, with the heading threshold as a parameter.\<close>
  "simplify min_turn s pp point =
     (let vector = get_vector (Point.latitude pp, Point.longitude pp)
                     (Point.latitude point, Point.longitude point);
          s' = (if min_turn \<le> \<bar>vector - prev_vector s\<bar>
                then s\<lparr>route := route s @ [(Point.latitude point, Point.longitude point)]\<rparr>
                else s)
      in s'\<lparr>prev_vector := vector\<rparr>)"

definition analyze_point :: "real \<Rightarrow> real \<Rightarrow> analyzer \<Rightarrow> Point \<Rightarrow> error + analyzer" where
  \<comment> \<open>One iteration of the loop of lines 152-182.\<close>
  "analyze_point min_speed min_turn s point =
     (case prev_point s of
        Some pp \<Rightarrow>
          (case get_speed_from_points pp point of
             Inl e \<Rightarrow> Inl e
           | Inr speed \<Rightarrow>
               Inr ((simplify min_turn (classify min_speed s point speed) pp point)
                      \<lparr>prev_point := Some point\<rparr>))
      | None \<Rightarrow>
          Inr (s\<lparr>route := route s @ [(Point.latitude point, Point.longitude point)],
                 prev_point := Some point\<rparr>))"

fun analyze :: "real \<Rightarrow> real \<Rightarrow> analyzer \<Rightarrow> Point list \<Rightarrow> error + analyzer" where
  "analyze min_speed min_turn s [] = Inr s"
| "analyze min_speed min_turn s (point # points) =
     (case analyze_point min_speed min_turn s point of
        Inl e \<Rightarrow> Inl e
      | Inr s' \<Rightarrow> analyze min_speed min_turn s' points)"

definition get_stop_points_with ::
  "real \<Rightarrow> real \<Rightarrow> Point list \<Rightarrow> error + StopPoint list \<times> (real \<times> real) list" where
  "get_stop_points_with min_speed min_turn raw =
     (case analyze min_speed min_turn analyzer_init (get_point raw) of
        Inl e \<Rightarrow> Inl e
      | Inr s \<Rightarrow> Inr (stop_points s, route s))"

definition get_stop_points :: "Point list \<Rightarrow> error + StopPoint list \<times> (real \<times> real) list" where
  \<comment> \<open>The source's thresholds: \<^verbatim>\<open>MIN_SPEED\<close> and the literal \<^verbatim>\<open>0.1\<close>.\<close>
  "get_stop_points raw = get_stop_points_with MIN_SPEED (1 / 10) raw"

subsection \<open>Derived stop metrics (lines 191-203)\<close>

definition get_elapsed_time :: "StopPoint \<Rightarrow> int" where
  "get_elapsed_time sp =
     py_int (real_of_int (seconds (end_time sp - start_time sp)) / 60 + 1 / 2)"

definition elapsed_time_to_str :: "int \<Rightarrow> string" where
  "elapsed_time_to_str elapsed_time =
     (if 60 \<le> elapsed_time
      then str_int (py_int (real_of_int elapsed_time / 60)) @ ''h ''
             @ str_int (elapsed_time mod 60) @ ''m''
      else str_int elapsed_time @ ''m'')"

subsection \<open>Specification-level notions the claims are stated with\<close>

fun buckets_from :: "Point list \<Rightarrow> Point list \<Rightarrow> Point list list" where
  \<comment> \<open>The buckets of the resampler, in the spec's words: a sample joins the buffer when the
      buffer is empty or the sample is less than the window width after the anchor (the
      first buffered sample); otherwise the buffer is closed and the sample starts the
      next one; at the end of the input the remaining buffer is the last bucket.\<close>
  "buckets_from buf [] = (if buf \<noteq> [] then [buf] else [])"
| "buckets_from buf (point # rest) =
     (case buf of
        [] \<Rightarrow> buckets_from [point] rest
      | anchor # _ \<Rightarrow>
          if timestamp point - timestamp anchor < POINT_INTERVAL_TIME
          then buckets_from (buf @ [point]) rest
          else buf # buckets_from [point] rest)"

definition buckets :: "Point list \<Rightarrow> Point list list" where
  "buckets raw = buckets_from [] raw"

definition round_half_up :: "real \<Rightarrow> int" where
  "round_half_up x = \<lfloor>x + 1 / 2\<rfloor>"

definition elapsed_minutes :: "StopPoint \<Rightarrow> int" where
  \<comment> \<open>The spec's \<^verbatim>\<open>round((end_time - start_time).total_seconds() / 60)\<close>, half up.\<close>
  "elapsed_minutes sp = round_half_up (total_seconds (end_time sp - start_time sp) / 60)"

definition position :: "Point \<Rightarrow> real \<times> real" where
  \<comment> \<open>The pair \<^verbatim>\<open>(point.latitude, point.longitude)\<close>.\<close>
  "position p = (Point.latitude p, Point.longitude p)"

definition well_timed :: "StopPoint \<Rightarrow> bool" where
  \<comment> \<open>The spec's invariant of a StopInterval.\<close>
  "well_timed sp = (start_time sp \<le> end_time sp)"

definition sample :: "int \<Rightarrow> real \<Rightarrow> real \<Rightarrow> Point" where
  \<comment> \<open>The sample \<open>n\<close> seconds after the origin at a position; for concrete inputs.\<close>
  "sample n lat lng = \<lparr>timestamp = timedelta_seconds n, latitude = lat, longitude = lng\<rparr>"

definition in_window :: "Point list \<Rightarrow> bool" where
  \<comment> \<open>Every sample of the bucket is less than the window width after its anchor.\<close>
  "in_window b = (\<forall>p\<in>set b. timestamp p - timestamp (hd b) < POINT_INTERVAL_TIME)"

definition separated :: "Point list \<Rightarrow> Point list \<Rightarrow> bool" where
  \<comment> \<open>The anchor of the second bucket is at least the window width after the first's.\<close>
  "separated b b' = (POINT_INTERVAL_TIME \<le> timestamp (hd b') - timestamp (hd b))"

definition stops_invariant :: "analyzer \<Rightarrow> bool" where
  \<comment> \<open>Every closed stop is well timed, and the open stop is well timed and ends no later
      than the previous sample (plus the display offset).\<close>
  "stops_invariant s =
     (list_all well_timed (stop_points s)
      \<and> (case stop_point s of
           None \<Rightarrow> True
         | Some sp \<Rightarrow>
             well_timed sp
             \<and> (case prev_point s of
                  None \<Rightarrow> False
                | Some pp \<Rightarrow> end_time sp \<le> timestamp pp + TIME_ZONE_DIFF)))"

definition not_before :: "analyzer \<Rightarrow> Point list \<Rightarrow> bool" where
  \<comment> \<open>No sample still to come is earlier than the previous sample.\<close>
  "not_before s ps =
     (case prev_point s of
        None \<Rightarrow> True
      | Some pp \<Rightarrow> list_all (\<lambda>p. timestamp pp \<le> timestamp p) ps)"

subsection \<open>Concrete tracks and analyzer states\<close>

text \<open>
  \<open>still t lat lng n\<close> is the sample at a fixed position \<open>n\<close> seconds after \<open>t\<close>. The
  states are those the analyzer goes through on the track that rests at \<open>(0, 0)\<close> for
  the samples at 0, 10 and 20 seconds and is a quarter turn to the east at 30 seconds;
  \<open>turned\<close> is its state after the two samples \<open>(0, 0)\<close> and, 10 seconds later, the pole.
\<close>

definition still :: "datetime \<Rightarrow> real \<Rightarrow> real \<Rightarrow> int \<Rightarrow> Point" where
  "still t lat lng n = \<lparr>timestamp = t + timedelta_seconds n, latitude = lat, longitude = lng\<rparr>"

definition rested :: StopPoint where
  "rested = \<lparr>latitude = 0, longitude = 0,
     start_time = timedelta_seconds 10 + TIME_ZONE_DIFF,
     end_time = timedelta_seconds 20 + TIME_ZONE_DIFF\<rparr>"

definition resting :: analyzer where
  "resting = \<lparr>stop_points = [], stop_point = Some rested,
     prev_point = Some (sample 20 0 0), route = [(0, 0)], prev_vector = 0\<rparr>"

definition opened :: analyzer where
  "opened = \<lparr>stop_points = [],
     stop_point = Some (rested\<lparr>end_time := timedelta_seconds 10 + TIME_ZONE_DIFF\<rparr>),
     prev_point = Some (sample 10 0 0), route = [(0, 0)], prev_vector = 0\<rparr>"

definition moved :: analyzer where
  "moved = \<lparr>stop_points = [rested], stop_point = None,
     prev_point = Some (sample 30 0 90), route = [(0, 0)], prev_vector = 0\<rparr>"

definition turned :: analyzer where
  "turned = \<lparr>stop_points = [], stop_point = None,
     prev_point = Some (sample 10 90 0), route = [(0, 0), (90, 0)], prev_vector = pi / 2\<rparr>"

section \<open>The resampler\<close>

lemma get_point_from_buckets: "get_point_from buf raw = map averaged (buckets_from buf raw)"
  by (induction raw arbitrary: buf) (auto split: list.splits)

lemma concat_buckets_from: "concat (buckets_from buf raw) = buf @ raw"
  by (induction raw arbitrary: buf) (auto split: list.splits)

lemma buckets_from_nonempty: "[] \<notin> set (buckets_from buf raw)"
  by (induction raw arbitrary: buf) (auto split: list.splits)

lemma buckets_from_hd:
  "buf \<noteq> [] \<Longrightarrow> buckets_from buf raw \<noteq> [] \<and> hd (hd (buckets_from buf raw)) = hd buf"
  by (induction raw arbitrary: buf) (auto split: list.splits)

lemma in_window_Nil: "in_window []" by (simp add: in_window_def)
lemma in_window_single: "in_window [p]" by (simp add: in_window_def POINT_INTERVAL_TIME_def timedelta_seconds_def)
lemma in_window_snoc: "in_window (a # b) \<Longrightarrow> timestamp p - timestamp a < POINT_INTERVAL_TIME \<Longrightarrow> in_window ((a # b) @ [p])"
  by (auto simp add: in_window_def)

lemma buckets_from_window:
  "in_window buf \<Longrightarrow> \<forall>b\<in>set (buckets_from buf raw). in_window b"
proof (induction raw arbitrary: buf)
  case Nil
  then show ?case by simp
next
  case (Cons point rest)
  show ?case
  proof (cases buf)
    case Nil
    then show ?thesis using Cons.IH [of "[point]"] by (simp add: in_window_single)
  next
    case (Cons a b)
    show ?thesis
    proof (cases "timestamp point - timestamp a < POINT_INTERVAL_TIME")
      case True
      then have "in_window (buf @ [point])"
        using Cons.prems Cons in_window_snoc by simp
      then show ?thesis using Cons.IH [of "buf @ [point]"] Cons True by simp
    next
      case False
      then show ?thesis using Cons.IH [of "[point]"] Cons Cons.prems by (simp add: in_window_single)
    qed
  qed
qed

lemma buckets_from_separated:
  "successively separated (buckets_from buf raw)"
proof (induction raw arbitrary: buf)
  case Nil
  then show ?case by simp
next
  case (Cons point rest)
  show ?case
  proof (cases buf)
    case Nil
    then show ?thesis using Cons.IH [of "[point]"] by simp
  next
    case (Cons a b)
    show ?thesis
    proof (cases "timestamp point - timestamp a < POINT_INTERVAL_TIME")
      case True
      then show ?thesis using Cons.IH [of "buf @ [point]"] Cons by simp
    next
      case False
      have "buckets_from [point] rest \<noteq> [] \<and> hd (hd (buckets_from [point] rest)) = point"
        using buckets_from_hd [of "[point]" rest] by simp
      then show ?thesis using Cons.IH [of "[point]"] Cons False
        by (simp add: successively_Cons separated_def)
    qed
  qed
qed

lemma timestamp_averaged: "timestamp (averaged b) = timestamp (hd b)"
  by (simp add: averaged_def)

lemma get_point_separated:
  "successively (\<lambda>p q. POINT_INTERVAL_TIME \<le> timestamp q - timestamp p) (get_point raw)"
  using buckets_from_separated [of "[]" raw]
  by (simp add: get_point_def get_point_from_buckets successively_map timestamp_averaged
      separated_def)

lemma successively_butlast: "successively P xs \<Longrightarrow> successively P (butlast xs)"
proof (cases "xs = []")
  case True
  then show ?thesis by simp
next
  case False
  assume "successively P xs"
  then have "successively P (butlast xs @ [last xs])" using False by simp
  then show ?thesis by (simp add: successively_append_iff)
qed

lemma separated_sorted:
  assumes "successively (\<lambda>p q. POINT_INTERVAL_TIME \<le> timestamp q - timestamp p) (xs :: Point list)"
  shows "sorted (map timestamp xs)"
proof -
  have "successively (\<lambda>p q. timestamp p \<le> timestamp q) xs"
    by (rule successively_mono [OF assms])
      (simp_all add: POINT_INTERVAL_TIME_def timedelta_seconds_def)
  moreover have "transp (\<lambda>p q :: Point. timestamp p \<le> timestamp q)"
    by (auto intro: transpI)
  ultimately have "sorted_wrt (\<lambda>p q. timestamp p \<le> timestamp q) xs"
    using successively_conv_sorted_wrt [of "\<lambda>p q :: Point. timestamp p \<le> timestamp q" xs]
    by blast
  then show ?thesis by (simp add: sorted_map)
qed

text \<open>
  Claim C5. For every raw input stream, the samples the resampler emits are the averages
  of its buckets, one per bucket and in order: the timestamp is the bucket's anchor (its
  first buffered sample's timestamp), latitude and longitude are the arithmetic means over
  the bucket. The buckets partition the input in order (no sample is lost, so the samples
  left in the buffer when the input ends form the last bucket and are flushed), none is
  empty, every sample of a bucket is less than ten seconds after its anchor, and the
  anchor of the next bucket is at least ten seconds after it.
\<close>

theorem get_point_averages_buckets:
  "concat (buckets raw) = raw \<and> [] \<notin> set (buckets raw)
   \<and> (\<forall>b\<in>set (buckets raw). in_window b)
   \<and> successively separated (buckets raw)
   \<and> get_point raw =
       map (\<lambda>b. \<lparr>timestamp = timestamp (hd b),
                  latitude = sum_list (map Point.latitude b) / real (length b),
                  longitude = sum_list (map Point.longitude b) / real (length b)\<rparr>)
         (buckets raw)"
proof -
  have "get_point raw = map averaged (buckets raw)"
    by (simp add: get_point_def buckets_def get_point_from_buckets)
  moreover have "averaged = (\<lambda>b. \<lparr>timestamp = timestamp (hd b),
                  latitude = sum_list (map Point.latitude b) / real (length b),
                  longitude = sum_list (map Point.longitude b) / real (length b)\<rparr>)"
    by (rule ext) (simp add: averaged_def)
  ultimately show ?thesis
    using concat_buckets_from [of "[]" raw] buckets_from_nonempty [of "[]" raw]
      buckets_from_window [OF in_window_Nil, of raw] buckets_from_separated [of "[]" raw]
    by (simp add: buckets_def)
qed

lemma buckets_example:
  "buckets [sample 0 10 20, sample 4 12 22, sample 10 30 40, sample 25 1 1]
     = [[sample 0 10 20, sample 4 12 22], [sample 10 30 40], [sample 25 1 1]]"
  by (simp add: buckets_def sample_def timedelta_seconds_def POINT_INTERVAL_TIME_def)

theorem get_point_averages_buckets_witness:
  "buckets [sample 0 10 20, sample 4 12 22, sample 10 30 40, sample 25 1 1]
     = [[sample 0 10 20, sample 4 12 22], [sample 10 30 40], [sample 25 1 1]]
   \<and> get_point [sample 0 10 20, sample 4 12 22, sample 10 30 40, sample 25 1 1]
     = [sample 0 11 21, sample 10 30 40, sample 25 1 1]"
  using get_point_averages_buckets
    [of "[sample 0 10 20, sample 4 12 22, sample 10 30 40, sample 25 1 1]"]
  by (simp add: buckets_example) (simp add: sample_def)

lemma sorted_concat_part:
  "sorted (map f (concat bs)) \<Longrightarrow> b \<in> set bs \<Longrightarrow> sorted (map f b)"
  by (induction bs) (auto simp: sorted_append)

text \<open>
  On an input with non-decreasing timestamps no sample of a bucket is earlier than the
  anchor, so the samples of a bucket are those of the half-open window that starts at it.
\<close>

lemma buckets_sorted_anchor:
  assumes "sorted (map timestamp raw)" and "b \<in> set (buckets raw)" and "p \<in> set b"
  shows "timestamp (hd b) \<le> timestamp p"
proof -
  have "concat (buckets raw) = raw"
    using concat_buckets_from [of "[]" raw] by (simp add: buckets_def)
  with assms(1,2) have "sorted (map timestamp b)"
    using sorted_concat_part [of timestamp "buckets raw" b] by simp
  then show ?thesis using assms(3) by (cases b) auto
qed

text \<open>
  Claim C6. For every raw input stream whose timestamps are non-decreasing, the timestamps
  of the resampler's output are non-decreasing, and consecutive emitted timestamps, the
  final flushed sample left aside, are at least the ten-second window apart. (By
  \<open>get_point_separated\<close> the separation holds for the final sample too, and without
  the hypothesis on the input.)
\<close>

theorem get_point_timestamps_separated:
  assumes "sorted (map timestamp raw)"
  shows "sorted (map timestamp (get_point raw))
         \<and> successively (\<lambda>p q. POINT_INTERVAL_TIME \<le> timestamp q - timestamp p)
             (butlast (get_point raw))"
  using get_point_separated [of raw] by (simp add: separated_sorted successively_butlast)

lemma get_point_example:
  "get_point [sample 0 10 20, sample 4 12 22, sample 10 30 40, sample 25 1 1]
     = [sample 0 11 21, sample 10 30 40, sample 25 1 1]"
  by (simp add: get_point_def averaged_def sample_def timedelta_seconds_def POINT_INTERVAL_TIME_def)

theorem get_point_timestamps_separated_witness:
  "sorted (map timestamp [sample 0 10 20, sample 4 12 22, sample 10 30 40, sample 25 1 1])
   \<and> sorted (map timestamp [sample 0 11 21, sample 10 30 40, sample 25 1 1])
   \<and> successively (\<lambda>p q. POINT_INTERVAL_TIME \<le> timestamp q - timestamp p)
       (butlast [sample 0 11 21, sample 10 30 40, sample 25 1 1])"
proof -
  have h: "sorted (map timestamp [sample 0 10 20, sample 4 12 22, sample 10 30 40, sample 25 1 1])"
    by (simp add: sample_def timedelta_seconds_def)
  show ?thesis
    using h get_point_timestamps_separated [OF h] by (simp add: get_point_example)
qed

section \<open>The analyzer\<close>

lemma analyze_point_route:
  "analyze_point ms mt s p = Inr s' \<Longrightarrow> prefix (route s) (route s')"
  by (auto simp: analyze_point_def simplify_def classify_def Let_def
      split: option.splits sum.splits if_splits)

lemma analyze_route:
  "analyze ms mt s ps = Inr s' \<Longrightarrow> prefix (route s) (route s')"
proof (induction ps arbitrary: s)
  case Nil
  then show ?case by simp
next
  case (Cons p ps)
  then obtain s1 where 1: "analyze_point ms mt s p = Inr s1" and 2: "analyze ms mt s1 ps = Inr s'"
    by (auto split: sum.splits)
  show ?case using analyze_point_route [OF 1] Cons.IH [OF 2] by (rule prefix_order.trans)
qed

lemma analyze_point_first:
  "analyze_point ms mt analyzer_init p = Inr s \<Longrightarrow> route s = [position p]"
  by (auto simp: analyze_point_def analyzer_init_def position_def)

text \<open>
  Claim C7. For every non-empty resampled stream and whatever the speed and heading
  thresholds are, the route that \<open>get_stop_points\<close> returns is not empty and its first
  vertex is the position of the first resampled sample. (\<open>get_stop_points\<close> returns
  unless the seconds field of the time between two consecutive resampled samples is 0;
  \<open>get_stop_points_returns\<close> below shows that it returns on every track shorter than a
  day.)
\<close>

theorem route_starts_at_first_sample:
  assumes "get_point raw = p # ps"
    and "get_stop_points_with min_speed min_turn raw = Inr (stops, rt)"
  shows "rt \<noteq> [] \<and> hd rt = (Point.latitude p, Point.longitude p)"
proof -
  from assms obtain s where s: "analyze min_speed min_turn analyzer_init (p # ps) = Inr s"
    and rt: "rt = route s"
    by (auto simp: get_stop_points_with_def split: sum.splits)
  from s obtain s1 where 1: "analyze_point min_speed min_turn analyzer_init p = Inr s1"
    and 2: "analyze min_speed min_turn s1 ps = Inr s"
    by (auto split: sum.splits)
  have "prefix [position p] (route s)"
    using analyze_point_first [OF 1] analyze_route [OF 2] by simp
  then show ?thesis by (auto simp: rt prefix_def position_def)
qed

lemma analyze_point_stop_points:
  "analyze_point ms mt s p = Inr s' \<Longrightarrow> prefix (stop_points s) (stop_points s')"
  by (auto simp: analyze_point_def simplify_def classify_def Let_def
      split: option.splits sum.splits if_splits)

lemma analyze_stop_points:
  "analyze ms mt s ps = Inr s' \<Longrightarrow> prefix (stop_points s) (stop_points s')"
proof (induction ps arbitrary: s)
  case Nil
  then show ?case by simp
next
  case (Cons p ps)
  then obtain s1 where 1: "analyze_point ms mt s p = Inr s1" and 2: "analyze ms mt s1 ps = Inr s'"
    by (auto split: sum.splits)
  show ?case using analyze_point_stop_points [OF 1] Cons.IH [OF 2] by (rule prefix_order.trans)
qed

lemma analyze_point_open_stop:
  assumes "stop_point s = Some sp" and "analyze_point ms mt s p = Inr s'"
    and "stop_points s' = stop_points s"
  shows "\<exists>e. stop_point s' = Some (sp\<lparr>end_time := e\<rparr>)"
proof (cases "prev_point s")
  case None
  then have "stop_point s' = Some (sp\<lparr>end_time := end_time sp\<rparr>)"
    using assms by (auto simp: analyze_point_def)
  then show ?thesis ..
next
  case (Some pp)
  then show ?thesis using assms
    by (auto simp: analyze_point_def simplify_def classify_def Let_def
        split: sum.splits if_splits)
qed

lemma analyze_open_stop:
  assumes "stop_point s = Some sp" and "analyze ms mt s ps = Inr s'"
    and "stop_points s' = stop_points s"
  shows "\<exists>e. stop_point s' = Some (sp\<lparr>end_time := e\<rparr>)"
  using assms
proof (induction ps arbitrary: s sp)
  case Nil
  then have "stop_point s' = Some (sp\<lparr>end_time := end_time sp\<rparr>)" by simp
  then show ?case ..
next
  case (Cons p ps)
  from Cons.prems obtain s1 where 1: "analyze_point ms mt s p = Inr s1"
    and 2: "analyze ms mt s1 ps = Inr s'"
    by (auto split: sum.splits)
  have "prefix (stop_points s) (stop_points s1)" "prefix (stop_points s1) (stop_points s')"
    using analyze_point_stop_points [OF 1] analyze_stop_points [OF 2] by simp_all
  then have eq: "stop_points s1 = stop_points s"
    using Cons.prems(3) by (simp add: prefix_order.antisym)
  from analyze_point_open_stop [OF Cons.prems(1) 1 eq]
  obtain e where e: "stop_point s1 = Some (sp\<lparr>end_time := e\<rparr>)" ..
  have "stop_points s' = stop_points s1" using eq Cons.prems(3) by simp
  from Cons.IH [OF e 2 this] show ?case by auto
qed

text \<open>
  Claim C9. While a stop stays open (no stop is appended to the list of stops while the
  samples \<open>ps\<close> are processed), the open stop keeps its latitude, its longitude and its
  start time: only its end time may differ. \<open>analyze_point_extends\<close> below is the single
  step: a sample below the speed threshold sets the end time of the open stop to the
  sample's timestamp plus the display offset and appends nothing.
\<close>

theorem open_stop_only_end_time_changes:
  assumes "stop_point s = Some sp"
    and "analyze min_speed min_turn s ps = Inr s'"
    and "stop_points s' = stop_points s"
  shows "\<exists>sp'. stop_point s' = Some sp'
           \<and> StopPoint.latitude sp' = StopPoint.latitude sp
           \<and> StopPoint.longitude sp' = StopPoint.longitude sp
           \<and> start_time sp' = start_time sp"
  using analyze_open_stop [OF assms] by auto

lemma classify_route [simp]: "route (classify ms s p v) = route s"
  by (simp add: classify_def split: option.splits)

lemma classify_prev_vector [simp]: "prev_vector (classify ms s p v) = prev_vector s"
  by (simp add: classify_def split: option.splits)

lemma classify_prev_point [simp]: "prev_point (classify ms s p v) = prev_point s"
  by (simp add: classify_def split: option.splits)

lemma simplify_stops [simp]:
  "stop_points (simplify mt s pp p) = stop_points s"
  "stop_point (simplify mt s pp p) = stop_point s"
  by (simp_all add: simplify_def Let_def)

lemma classify_invariant:
  assumes "stops_invariant s" and "prev_point s = Some pp" and "timestamp pp \<le> timestamp p"
  shows "stops_invariant ((classify ms s p v)\<lparr>prev_point := Some p\<rparr>)"
  using assms
  by (auto simp: stops_invariant_def classify_def well_timed_def split: option.splits)

lemma analyze_point_invariant:
  assumes "stops_invariant s" and "not_before s [p]" and "analyze_point ms mt s p = Inr s'"
  shows "stops_invariant s' \<and> prev_point s' = Some p"
proof (cases "prev_point s")
  case None
  then show ?thesis using assms
    by (auto simp: analyze_point_def stops_invariant_def split: option.splits)
next
  case (Some pp)
  then obtain v where v: "get_speed_from_points pp p = Inr v"
    and s': "s' = (simplify mt (classify ms s p v) pp p)\<lparr>prev_point := Some p\<rparr>"
    using assms(3) by (auto simp: analyze_point_def split: sum.splits)
  have "timestamp pp \<le> timestamp p" using assms(2) Some by (simp add: not_before_def)
  from classify_invariant [OF assms(1) Some this, of ms v]
  show ?thesis by (auto simp: s' stops_invariant_def split: option.splits)
qed

lemma analyze_invariant:
  assumes "stops_invariant s" and "not_before s ps" and "sorted (map timestamp ps)"
    and "analyze ms mt s ps = Inr s'"
  shows "stops_invariant s'"
  using assms
proof (induction ps arbitrary: s)
  case Nil
  then show ?case by simp
next
  case (Cons p ps)
  from Cons.prems(4) obtain s1 where 1: "analyze_point ms mt s p = Inr s1"
    and 2: "analyze ms mt s1 ps = Inr s'"
    by (auto split: sum.splits)
  have "not_before s [p]" using Cons.prems(2) by (simp add: not_before_def split: option.splits)
  from analyze_point_invariant [OF Cons.prems(1) this 1]
  have inv: "stops_invariant s1" and prev: "prev_point s1 = Some p" by simp_all
  have nb: "not_before s1 ps" using Cons.prems(3) prev by (simp add: not_before_def list_all_iff)
  have "sorted (map timestamp ps)" using Cons.prems(3) by simp
  from Cons.IH [OF inv nb this 2] show ?case .
qed

lemma stops_invariant_init: "stops_invariant analyzer_init \<and> not_before analyzer_init ps"
  by (simp add: stops_invariant_def not_before_def analyzer_init_def)

text \<open>
  Claim C8. For every input stream with non-decreasing timestamps, after every prefix of
  the resampled stream each stop in the list of stops and the open stop, if there is one,
  have \<open>start_time \<le> end_time\<close>.
\<close>

theorem stops_always_well_timed:
  assumes "sorted (map timestamp raw)"
    and "prefix ps (get_point raw)"
    and "analyze min_speed min_turn analyzer_init ps = Inr s"
  shows "(\<forall>sp\<in>set (stop_points s). start_time sp \<le> end_time sp)
         \<and> (\<forall>sp. stop_point s = Some sp \<longrightarrow> start_time sp \<le> end_time sp)"
proof -
  have "sorted (map timestamp (get_point raw))"
    using get_point_separated [of raw] by (rule separated_sorted)
  moreover obtain zs where "get_point raw = ps @ zs" using assms(2) by (auto simp: prefix_def)
  ultimately have "sorted (map timestamp ps)" by (simp add: sorted_append)
  with stops_invariant_init [of ps] assms(3) have "stops_invariant s"
    using analyze_invariant by blast
  then show ?thesis
    by (auto simp: stops_invariant_def well_timed_def list_all_iff split: option.splits)
qed

lemma get_vector_due_east: "0 < d \<Longrightarrow> get_vector (lat, lng) (lat, lng + d) = 0"
  by (simp add: get_vector_def py_atan2_def)

text \<open>
  Claim C10. The previous bearing starts at 0, which is the bearing of a step due east
  (same latitude, greater longitude). For every stream of at least two resampled samples
  on which \<open>get_stop_points\<close> returns, the route after the second sample is the first
  position followed by the second position exactly when the bearing from the first to the
  second sample differs from 0 by at least 0.1, and by nothing otherwise; the returned
  route starts with it.
\<close>

theorem second_vertex_depends_on_initial_bearing:
  assumes "get_point raw = p0 # p1 # rest"
    and "get_stop_points raw = Inr (stops, rt)"
  shows "prev_vector analyzer_init = 0
         \<and> (\<forall>lat lng d. 0 < d \<longrightarrow> get_vector (lat, lng) (lat, lng + d) = 0)
         \<and> (\<exists>s. analyze MIN_SPEED (1 / 10) analyzer_init [p0, p1] = Inr s
               \<and> route s = position p0 #
                   (if 1 / 10 \<le> \<bar>get_vector (position p0) (position p1) - 0\<bar>
                    then [position p1] else [])
               \<and> prefix (route s) rt)"
proof -
  from assms obtain sf where sf: "analyze MIN_SPEED (1 / 10) analyzer_init (p0 # p1 # rest) = Inr sf"
    and rt: "rt = route sf"
    by (auto simp: get_stop_points_def get_stop_points_with_def split: sum.splits)
  from sf obtain s1 s2 where 1: "analyze_point MIN_SPEED (1 / 10) analyzer_init p0 = Inr s1"
    and 2: "analyze_point MIN_SPEED (1 / 10) s1 p1 = Inr s2"
    and 3: "analyze MIN_SPEED (1 / 10) s2 rest = Inr sf"
    by (auto split: sum.splits)
  have s1: "s1 = analyzer_init\<lparr>route := [position p0], prev_point := Some p0\<rparr>"
    using 1 by (auto simp: analyze_point_def analyzer_init_def position_def)
  have r2: "route s2 = position p0 #
      (if 1 / 10 \<le> \<bar>get_vector (position p0) (position p1) - 0\<bar> then [position p1] else [])"
    using 2 unfolding s1
    by (auto simp: analyze_point_def simplify_def Let_def analyzer_init_def position_def
        split: sum.splits)
  have "analyze MIN_SPEED (1 / 10) analyzer_init [p0, p1] = Inr s2"
    using 1 2 by simp
  moreover have "prefix (route s2) rt" unfolding rt by (rule analyze_route [OF 3])
  ultimately show ?thesis using r2 by (auto simp: analyzer_init_def get_vector_due_east)
qed

text \<open>
  Claim C2, as amended. For every pair of consecutive samples with identical timestamps the
  speed computation raises ZeroDivisionError: nothing guards the division, and the
  analyzer's step on the second sample raises the same error instead of skipping the
  classification. (\<open>resampled_never_simultaneous\<close> below: two consecutive samples of the
  resampler never have the same timestamp.)
\<close>

theorem identical_timestamps_raise:
  assumes "timestamp p1 = timestamp p2"
  shows "get_speed_from_points p1 p2 = Inl ZeroDivisionError
         \<and> (prev_point s = Some p1 \<longrightarrow>
              analyze_point min_speed min_turn s p2 = Inl ZeroDivisionError)"
  using assms
  by (simp add: get_speed_from_points_def get_speed_def seconds_def analyze_point_def)

text \<open>
  The claim C2 as stated fails: for two samples at time 0 the speed computation and the
  analyzer's step both raise ZeroDivisionError.
\<close>

theorem get_speed_unguarded:
  "get_speed_from_points (sample 0 35 139) (sample 0 35 139) = Inl ZeroDivisionError
   \<and> analyze_point MIN_SPEED (1 / 10)
       (analyzer_init\<lparr>prev_point := Some (sample 0 35 139)\<rparr>) (sample 0 35 139)
     = Inl ZeroDivisionError"
  by (simp add: get_speed_from_points_def get_speed_def seconds_def analyze_point_def)

theorem identical_timestamps_raise_witness:
  "timestamp (sample 7 35 139) = timestamp (sample 7 36 140)
   \<and> get_speed_from_points (sample 7 35 139) (sample 7 36 140) = Inl ZeroDivisionError
   \<and> analyze_point MIN_SPEED (1 / 10)
       (analyzer_init\<lparr>prev_point := Some (sample 7 35 139)\<rparr>) (sample 7 36 140)
     = Inl ZeroDivisionError"
proof -
  have h: "timestamp (sample 7 35 139) = timestamp (sample 7 36 140)"
    by (simp add: sample_def)
  show ?thesis
    using h identical_timestamps_raise [OF h,
        of "analyzer_init\<lparr>prev_point := Some (sample 7 35 139)\<rparr>" MIN_SPEED "1 / 10"]
    by simp
qed

lemma get_elapsed_time_within_day:
  assumes "0 \<le> end_time sp - start_time sp" and "end_time sp - start_time sp < timedelta_hours 24"
  shows "get_elapsed_time sp = elapsed_minutes sp"
proof -
  define d where "d = end_time sp - start_time sp"
  have d: "0 \<le> d" "d < 86400000000" using assms by (simp_all add: d_def timedelta_hours_def)
  have sec: "seconds d = d div 1000000"
    using d by (simp add: seconds_def pos_imp_zdiv_nonneg_iff)
  have l: "get_elapsed_time sp = (d div 1000000 + 30) div 60"
  proof -
    have "real_of_int (d div 1000000) / 60 + 1 / 2 = real_of_int (d div 1000000 + 30) / real_of_int 60"
      by simp
    moreover have "0 \<le> real_of_int (d div 1000000) / 60 + 1 / 2"
      using d by (simp add: pos_imp_zdiv_nonneg_iff)
    ultimately show ?thesis
      unfolding get_elapsed_time_def py_int_def d_def [symmetric] sec
      by (simp only: if_True floor_divide_of_int_eq)
  qed
  have "total_seconds d / 60 + 1 / 2 = real_of_int (d + 30000000) / real_of_int 60000000"
    by (simp add: total_seconds_def)
  then have "elapsed_minutes sp = (d + 30000000) div 60000000"
    unfolding elapsed_minutes_def round_half_up_def d_def [symmetric]
    by (simp only: floor_divide_of_int_eq)
  also have "\<dots> = ((d + 30000000) div 1000000) div 60"
    using zdiv_zmult2_eq [of 1000000 "d + 30000000" 60] by simp
  also have "(d + 30000000) div 1000000 = d div 1000000 + 30"
    by simp
  finally show ?thesis using l by simp
qed

text \<open>
  Claim C3. \<open>get_elapsed_time\<close> reads the seconds field of the duration, which drops whole
  days: for a stop of exactly 24 hours it returns 0, where the duration in minutes rounded
  half up is 1440. (By \<open>get_elapsed_time_within_day\<close> the two agree on every stop of
  less than a day.)
\<close>

theorem get_elapsed_time_drops_days:
  "get_elapsed_time \<lparr>latitude = 35, longitude = 139, start_time = 0, end_time = timedelta_hours 24\<rparr> = 0
   \<and> elapsed_minutes \<lparr>latitude = 35, longitude = 139, start_time = 0, end_time = timedelta_hours 24\<rparr> = 1440"
  by (simp add: get_elapsed_time_def elapsed_minutes_def round_half_up_def total_seconds_def
      seconds_def py_int_def timedelta_hours_def)

lemma antipodal_sum: "dot_xyz (latlng_to_xyz 0 0) (latlng_to_xyz 0 180) = - 1"
  by (simp add: latlng_to_xyz_def radians_def dot_xyz_def)

lemma full_turn_sum: "dot_xyz (latlng_to_xyz 0 0) (latlng_to_xyz 0 360) = 1"
  by (simp add: latlng_to_xyz_def radians_def dot_xyz_def)

text \<open>
  Claim C4. \<open>get_distance\<close> returns a distance on every input and for every rounding
  of the sum: it has no failing branch. For every position \<open>p\<close> the distance from \<open>p\<close> to
  \<open>p\<close> is 0, and for every two positions for which the rounded sum, the argument of
  \<open>acos\<close>, is outside \<open>[-1, 1]\<close> (rounding can do this when the exact sum is 1 or
  -1 or close to them, at near-identical and at antipodal positions) the distance is 0.
\<close>

theorem get_distance_degenerate:
  "get_distance rnd p p radious = 0
   \<and> (rnd (dot_xyz (latlng_to_xyz (fst pos0) (snd pos0))
              (latlng_to_xyz (fst pos1) (snd pos1))) < - 1
      \<or> 1 < rnd (dot_xyz (latlng_to_xyz (fst pos0) (snd pos0))
                  (latlng_to_xyz (fst pos1) (snd pos1)))
      \<longrightarrow> get_distance rnd pos0 pos1 radious = 0)"
proof
  show "get_distance rnd p p radious = 0"
    by (simp add: get_distance_def)
next
  define d where "d = rnd (dot_xyz (latlng_to_xyz (fst pos0) (snd pos0))
                            (latlng_to_xyz (fst pos1) (snd pos1)))"
  have "get_distance rnd pos0 pos1 radious = 0" if "d < - 1 \<or> 1 < d"
  proof -
    from that have "py_acos d = Inl ValueError"
      by (auto simp: py_acos_def)
    then show ?thesis
      by (simp add: get_distance_def Let_def d_def [symmetric])
  qed
  then show "rnd (dot_xyz (latlng_to_xyz (fst pos0) (snd pos0))
              (latlng_to_xyz (fst pos1) (snd pos1))) < - 1
      \<or> 1 < rnd (dot_xyz (latlng_to_xyz (fst pos0) (snd pos0))
                  (latlng_to_xyz (fst pos1) (snd pos1)))
      \<longrightarrow> get_distance rnd pos0 pos1 radious = 0"
    unfolding d_def by blast
qed

theorem get_distance_degenerate_witness:
  "get_distance (\<lambda>d. d + d / 2 ^ 52) (35, 139) (35, 139) earth_rad = 0
   \<and> (\<lambda>d. d + d / 2 ^ 52) (dot_xyz (latlng_to_xyz 0 0) (latlng_to_xyz 0 180)) < (- 1 :: real)
   \<and> get_distance (\<lambda>d. d + d / 2 ^ 52) (0, 0) (0, 180) earth_rad = 0"
  using get_distance_degenerate [of "\<lambda>d. d + d / 2 ^ 52" "(35, 139)" earth_rad "(0, 0)" "(0, 180)"]
  by (simp add: antipodal_sum)

text \<open>
  The same at two positions a full turn apart, where the exact sum is 1, and what the
  handler changes: with the exact sum the distance of the antipodal positions is half the
  circumference.
\<close>

lemma get_distance_full_turn:
  "get_distance (\<lambda>d. d + d / 2 ^ 52) (0, 0) (0, 360) earth_rad = 0"
  by (simp add: get_distance_def full_turn_sum py_acos_def)

lemma get_distance_antipodal_exact:
  "get_distance (\<lambda>d. d) (0, 0) (0, 180) earth_rad = pi * earth_rad"
  by (simp add: get_distance_def antipodal_sum py_acos_def)

section \<open>Concrete runs\<close>

lemma speed_at_rest:
  "get_speed_from_points (still t lat lng n) (still t lat lng (n + 10)) = Inr 0"
  by (simp add: get_speed_from_points_def get_speed_def get_distance_def seconds_def
      still_def timedelta_seconds_def)

lemma get_vector_same: "get_vector (lat, lng) (lat, lng) = 0"
  by (simp add: get_vector_def py_atan2_def)

lemma get_point_scenario_B:
  "get_point [still t lat lng 0, still t lat lng 10, still t lat lng 20]
     = [still t lat lng 0, still t lat lng 10, still t lat lng 20]"
  by (simp add: get_point_def averaged_def still_def timedelta_seconds_def POINT_INTERVAL_TIME_def)

lemma analyze_scenario_B:
  "analyze MIN_SPEED (1 / 10) analyzer_init
     [still t lat lng 0, still t lat lng 10, still t lat lng 20]
   = Inr \<lparr>stop_points = [],
          stop_point = Some \<lparr>latitude = lat, longitude = lng,
            start_time = t + timedelta_seconds 10 + TIME_ZONE_DIFF,
            end_time = t + timedelta_seconds 20 + TIME_ZONE_DIFF\<rparr>,
          prev_point = Some (still t lat lng 20),
          route = [(lat, lng)],
          prev_vector = 0\<rparr>"
proof -
  have 1: "get_speed_from_points (still t lat lng 0) (still t lat lng 10) = Inr 0"
    using speed_at_rest [of t lat lng 0] by simp
  have 2: "get_speed_from_points (still t lat lng 10) (still t lat lng 20) = Inr 0"
    using speed_at_rest [of t lat lng 10] by simp
  have [simp]: "Point.latitude (still t lat lng n) = lat" "Point.longitude (still t lat lng n) = lng"
    "timestamp (still t lat lng n) = t + timedelta_seconds n" for n
    by (simp_all add: still_def)
  show ?thesis
    by (simp add: analyze_point_def analyzer_init_def 1 2 classify_def simplify_def
        get_vector_same MIN_SPEED_def)
qed

lemma str_int_0: "str_int 0 = ''0''"
  by (simp add: str_int_def str_nat.simps)

text \<open>
  Claim C1, as amended. For three consecutive resampled samples at the same position, each
  10 seconds after the one before, the two computed speeds are 0 km/h. The analyzer opens
  one stop at the second sample and extends it at the third: it spans from the second
  sample's timestamp to the last sample's timestamp (each plus the fixed display offset),
  10 seconds, its elapsed time is 0 minutes and renders as \<open>0m\<close>. The stop is still open
  when the stream ends, and the list of stops that \<open>get_stop_points\<close> returns is empty.
\<close>

theorem scenario_B_open_stop:
  "get_point [still t lat lng 0, still t lat lng 10, still t lat lng 20]
     = [still t lat lng 0, still t lat lng 10, still t lat lng 20]
   \<and> get_speed_from_points (still t lat lng 0) (still t lat lng 10) = Inr 0
   \<and> get_speed_from_points (still t lat lng 10) (still t lat lng 20) = Inr 0
   \<and> analyze MIN_SPEED (1 / 10) analyzer_init
       [still t lat lng 0, still t lat lng 10, still t lat lng 20]
     = Inr \<lparr>stop_points = [],
          stop_point = Some \<lparr>latitude = lat, longitude = lng,
            start_time = timestamp (still t lat lng 10) + TIME_ZONE_DIFF,
            end_time = timestamp (still t lat lng 20) + TIME_ZONE_DIFF\<rparr>,
          prev_point = Some (still t lat lng 20),
          route = [(lat, lng)],
          prev_vector = 0\<rparr>
   \<and> get_stop_points [still t lat lng 0, still t lat lng 10, still t lat lng 20]
     = Inr ([], [(lat, lng)])
   \<and> (timestamp (still t lat lng 20) + TIME_ZONE_DIFF)
       - (timestamp (still t lat lng 10) + TIME_ZONE_DIFF) = timedelta_seconds 10
   \<and> get_elapsed_time \<lparr>latitude = lat, longitude = lng,
            start_time = timestamp (still t lat lng 10) + TIME_ZONE_DIFF,
            end_time = timestamp (still t lat lng 20) + TIME_ZONE_DIFF\<rparr> = 0
   \<and> elapsed_time_to_str 0 = ''0m''"
proof -
  have ts: "timestamp (still t lat lng n) = t + timedelta_seconds n" for n
    by (simp add: still_def)
  have c1: "get_point [still t lat lng 0, still t lat lng 10, still t lat lng 20]
     = [still t lat lng 0, still t lat lng 10, still t lat lng 20]"
    by (rule get_point_scenario_B)
  have c2: "get_speed_from_points (still t lat lng 0) (still t lat lng 10) = Inr 0"
    using speed_at_rest [of t lat lng 0] by simp
  have c3: "get_speed_from_points (still t lat lng 10) (still t lat lng 20) = Inr 0"
    using speed_at_rest [of t lat lng 10] by simp
  have c4: "analyze MIN_SPEED (1 / 10) analyzer_init
       [still t lat lng 0, still t lat lng 10, still t lat lng 20]
     = Inr \<lparr>stop_points = [],
          stop_point = Some \<lparr>latitude = lat, longitude = lng,
            start_time = timestamp (still t lat lng 10) + TIME_ZONE_DIFF,
            end_time = timestamp (still t lat lng 20) + TIME_ZONE_DIFF\<rparr>,
          prev_point = Some (still t lat lng 20),
          route = [(lat, lng)],
          prev_vector = 0\<rparr>"
    unfolding ts by (rule analyze_scenario_B)
  have c5: "get_stop_points [still t lat lng 0, still t lat lng 10, still t lat lng 20]
     = Inr ([], [(lat, lng)])"
    by (simp only: get_stop_points_def get_stop_points_with_def get_point_scenario_B
        analyze_scenario_B) simp
  have c6: "(timestamp (still t lat lng 20) + TIME_ZONE_DIFF)
       - (timestamp (still t lat lng 10) + TIME_ZONE_DIFF) = timedelta_seconds 10"
    by (simp add: ts timedelta_seconds_def)
  have c7: "get_elapsed_time \<lparr>latitude = lat, longitude = lng,
            start_time = timestamp (still t lat lng 10) + TIME_ZONE_DIFF,
            end_time = timestamp (still t lat lng 20) + TIME_ZONE_DIFF\<rparr> = 0"
    by (simp add: ts get_elapsed_time_def seconds_def timedelta_seconds_def py_int_def)
  have c8: "elapsed_time_to_str 0 = ''0m''"
    by (simp add: elapsed_time_to_str_def str_int_0)
  from c1 c2 c3 c4 c5 c6 c7 c8 show ?thesis by blast
qed

text \<open>
  The claim C1 as stated fails: on the three samples at \<open>(35, 139)\<close> and 0, 10 and 20
  seconds, \<open>get_stop_points\<close> returns no stop, so not the one stop from the first sample's
  timestamp to the last's.
\<close>

theorem scenario_B_no_stop_returned:
  "get_stop_points [still 0 35 139 0, still 0 35 139 10, still 0 35 139 20]
     = Inr ([], [(35, 139)])
   \<and> get_stop_points [still 0 35 139 0, still 0 35 139 10, still 0 35 139 20]
     \<noteq> Inr ([\<lparr>latitude = 35, longitude = 139,
            start_time = timestamp (still 0 35 139 0) + TIME_ZONE_DIFF,
            end_time = timestamp (still 0 35 139 20) + TIME_ZONE_DIFF\<rparr>], [(35, 139)])"
  by (simp only: get_stop_points_def get_stop_points_with_def get_point_scenario_B
        analyze_scenario_B) simp

lemma analyze_append:
  "analyze ms mt s (xs @ ys) =
     (case analyze ms mt s xs of Inl e \<Rightarrow> Inl e | Inr s' \<Rightarrow> analyze ms mt s' ys)"
  by (induction xs arbitrary: s) (auto split: sum.splits)

lemma sample_fields:
  "timestamp (sample n lat lng) = timedelta_seconds n"
  "Point.latitude (sample n lat lng) = lat"
  "Point.longitude (sample n lat lng) = lng"
  by (simp_all add: sample_def)

lemma still_sample: "still 0 lat lng n = sample n lat lng"
  by (simp add: still_def sample_def)

lemma quarter_turn_east:
  "get_distance (\<lambda>d. d) (0, 0) (0, 90) earth_rad = pi / 2 * earth_rad"
  by (simp add: get_distance_def latlng_to_xyz_def radians_def dot_xyz_def py_acos_def)

lemma quarter_turn_north:
  "get_distance (\<lambda>d. d) (0, 0) (90, 0) earth_rad = pi / 2 * earth_rad"
  by (simp add: get_distance_def latlng_to_xyz_def radians_def dot_xyz_def py_acos_def)

lemma moving_fast: "\<not> pi / 2 * earth_rad / 10 * 3600 < MIN_SPEED"
proof -
  have "5 < 2 / 2 * (6378137 / 1000) / 10 * (3600 :: real)" by simp
  also have "\<dots> \<le> pi / 2 * (6378137 / 1000) / 10 * 3600" using pi_ge_two by simp
  finally show ?thesis by (simp add: earth_rad_def MIN_SPEED_def)
qed

lemma speed_east:
  "get_speed_from_points (sample 20 0 0) (sample 30 0 90) = Inr (pi / 2 * earth_rad / 10 * 3600)"
  by (simp add: get_speed_from_points_def get_speed_def seconds_def sample_def
      timedelta_seconds_def quarter_turn_east)

lemma speed_north:
  "get_speed_from_points (sample 0 0 0) (sample 10 90 0) = Inr (pi / 2 * earth_rad / 10 * 3600)"
  by (simp add: get_speed_from_points_def get_speed_def seconds_def sample_def
      timedelta_seconds_def quarter_turn_north)

lemma analyze_opened:
  "analyze MIN_SPEED (1 / 10) analyzer_init [sample 0 0 0, sample 10 0 0] = Inr opened"
proof -
  have 1: "get_speed_from_points (sample 0 0 0) (sample 10 0 0) = Inr 0"
    using speed_at_rest [of 0 0 0 0] by (simp add: still_sample)
  show ?thesis
    by (simp add: analyze_point_def analyzer_init_def 1 classify_def simplify_def
        get_vector_same MIN_SPEED_def opened_def rested_def sample_fields)
qed

lemma analyze_resting_step:
  "analyze MIN_SPEED (1 / 10) opened [sample 20 0 0] = Inr resting"
proof -
  have 1: "get_speed_from_points (sample 10 0 0) (sample 20 0 0) = Inr 0"
    using speed_at_rest [of 0 0 0 10] by (simp add: still_sample)
  show ?thesis
    by (simp add: analyze_point_def 1 classify_def simplify_def
        get_vector_same MIN_SPEED_def opened_def resting_def rested_def sample_fields)
qed

lemma analyze_moved_step:
  "analyze MIN_SPEED (1 / 10) resting [sample 30 0 90] = Inr moved"
  using moving_fast
  by (simp add: analyze_point_def speed_east classify_def simplify_def resting_def moved_def
      sample_fields get_vector_def py_atan2_def)

lemma analyze_rest_then_move:
  "analyze MIN_SPEED (1 / 10) analyzer_init
     [sample 0 0 0, sample 10 0 0, sample 20 0 0, sample 30 0 90] = Inr moved"
  using analyze_append [of MIN_SPEED "1 / 10" analyzer_init "[sample 0 0 0, sample 10 0 0]"
      "[sample 20 0 0, sample 30 0 90]"]
    analyze_append [of MIN_SPEED "1 / 10" opened "[sample 20 0 0]" "[sample 30 0 90]"]
  by (simp only: append_Cons append_Nil analyze_opened analyze_resting_step analyze_moved_step
      sum.case)

lemma get_point_rest_then_move:
  "get_point [sample 0 0 0, sample 10 0 0, sample 20 0 0, sample 30 0 90]
     = [sample 0 0 0, sample 10 0 0, sample 20 0 0, sample 30 0 90]"
  by (simp add: get_point_def averaged_def sample_def timedelta_seconds_def POINT_INTERVAL_TIME_def)

lemma get_stop_points_rest_then_move:
  "get_stop_points [sample 0 0 0, sample 10 0 0, sample 20 0 0, sample 30 0 90]
     = Inr ([rested], [(0, 0)])"
  by (simp only: get_stop_points_def get_stop_points_with_def get_point_rest_then_move
      analyze_rest_then_move) (simp add: moved_def)

theorem route_starts_at_first_sample_witness:
  "get_point [sample 0 0 0, sample 10 0 0, sample 20 0 0, sample 30 0 90]
     = sample 0 0 0 # [sample 10 0 0, sample 20 0 0, sample 30 0 90]
   \<and> get_stop_points_with MIN_SPEED (1 / 10)
       [sample 0 0 0, sample 10 0 0, sample 20 0 0, sample 30 0 90] = Inr ([rested], [(0, 0)])
   \<and> hd [(0, 0)] = (Point.latitude (sample 0 0 0), Point.longitude (sample 0 0 0))"
proof -
  have 1: "get_point [sample 0 0 0, sample 10 0 0, sample 20 0 0, sample 30 0 90]
     = sample 0 0 0 # [sample 10 0 0, sample 20 0 0, sample 30 0 90]"
    by (rule get_point_rest_then_move)
  have 2: "get_stop_points_with MIN_SPEED (1 / 10)
       [sample 0 0 0, sample 10 0 0, sample 20 0 0, sample 30 0 90] = Inr ([rested], [(0, 0)])"
    using get_stop_points_rest_then_move by (simp add: get_stop_points_def)
  from route_starts_at_first_sample [OF 1 2] 1 2 show ?thesis by blast
qed

theorem stops_always_well_timed_witness:
  "sorted (map timestamp [sample 0 0 0, sample 10 0 0, sample 20 0 0, sample 30 0 90])
   \<and> prefix [sample 0 0 0, sample 10 0 0, sample 20 0 0, sample 30 0 90]
       (get_point [sample 0 0 0, sample 10 0 0, sample 20 0 0, sample 30 0 90])
   \<and> analyze MIN_SPEED (1 / 10) analyzer_init
       [sample 0 0 0, sample 10 0 0, sample 20 0 0, sample 30 0 90] = Inr moved
   \<and> stop_points moved = [rested]
   \<and> start_time rested \<le> end_time rested"
proof -
  have 1: "sorted (map timestamp [sample 0 0 0, sample 10 0 0, sample 20 0 0, sample 30 0 90])"
    by (simp add: sample_def timedelta_seconds_def)
  have 2: "prefix [sample 0 0 0, sample 10 0 0, sample 20 0 0, sample 30 0 90]
       (get_point [sample 0 0 0, sample 10 0 0, sample 20 0 0, sample 30 0 90])"
    by (simp only: get_point_rest_then_move prefix_order.refl)
  have 3: "stop_points moved = [rested]" by (simp add: moved_def)
  from stops_always_well_timed [OF 1 2 analyze_rest_then_move] 1 2 3 analyze_rest_then_move
  show ?thesis by simp
qed

theorem open_stop_only_end_time_changes_witness:
  "stop_point opened = Some (rested\<lparr>end_time := timedelta_seconds 10 + TIME_ZONE_DIFF\<rparr>)
   \<and> analyze MIN_SPEED (1 / 10) opened [sample 20 0 0] = Inr resting
   \<and> stop_points resting = stop_points opened
   \<and> stop_point resting = Some rested
   \<and> StopPoint.latitude rested = 0 \<and> StopPoint.longitude rested = 0
   \<and> start_time rested = timedelta_seconds 10 + TIME_ZONE_DIFF"
proof -
  have 1: "stop_point opened = Some (rested\<lparr>end_time := timedelta_seconds 10 + TIME_ZONE_DIFF\<rparr>)"
    by (simp add: opened_def)
  have 2: "stop_points resting = stop_points opened"
    by (simp add: opened_def resting_def)
  have 3: "stop_point resting = Some rested" by (simp add: resting_def)
  from open_stop_only_end_time_changes [OF 1 analyze_resting_step 2] 1 2 3 analyze_resting_step
  show ?thesis by (simp add: rested_def)
qed

lemma bearing_north: "get_vector (0, 0) (90, 0) = pi / 2"
  by (simp add: get_vector_def py_atan2_def)

lemma bearing_north_turn: "1 / 10 \<le> \<bar>pi / 2 - 0\<bar>"
  using pi_ge_two by simp

lemma analyze_turned:
  "analyze MIN_SPEED (1 / 10) analyzer_init [sample 0 0 0, sample 10 90 0] = Inr turned"
  using moving_fast bearing_north_turn
  by (simp add: analyze_point_def analyzer_init_def speed_north classify_def simplify_def
      turned_def sample_fields bearing_north)

lemma get_point_turned:
  "get_point [sample 0 0 0, sample 10 90 0] = [sample 0 0 0, sample 10 90 0]"
  by (simp add: get_point_def averaged_def sample_def timedelta_seconds_def POINT_INTERVAL_TIME_def)

theorem second_vertex_depends_on_initial_bearing_witness:
  "get_point [sample 0 0 0, sample 10 90 0] = sample 0 0 0 # sample 10 90 0 # []
   \<and> get_stop_points [sample 0 0 0, sample 10 90 0] = Inr ([], [(0, 0), (90, 0)])
   \<and> 1 / 10 \<le> \<bar>get_vector (position (sample 0 0 0)) (position (sample 10 90 0)) - 0\<bar>
   \<and> (\<exists>s. analyze MIN_SPEED (1 / 10) analyzer_init [sample 0 0 0, sample 10 90 0] = Inr s
         \<and> route s = [position (sample 0 0 0), position (sample 10 90 0)])"
proof -
  have 1: "get_point [sample 0 0 0, sample 10 90 0] = sample 0 0 0 # sample 10 90 0 # []"
    by (rule get_point_turned)
  have 2: "get_stop_points [sample 0 0 0, sample 10 90 0] = Inr ([], [(0, 0), (90, 0)])"
    by (simp only: get_stop_points_def get_stop_points_with_def get_point_turned analyze_turned)
      (simp add: turned_def)
  have 3: "1 / 10 \<le> \<bar>get_vector (position (sample 0 0 0)) (position (sample 10 90 0)) - 0\<bar>"
    using bearing_north_turn by (simp add: position_def sample_fields bearing_north)
  from second_vertex_depends_on_initial_bearing [OF 1 2] 1 2 3 show ?thesis by auto
qed

section \<open>When the analysis returns\<close>

lemma get_speed_from_points_raises:
  "(\<exists>e. get_speed_from_points p q = Inl e) \<longleftrightarrow> seconds (timestamp q - timestamp p) = 0"
  by (simp add: get_speed_from_points_def get_speed_def Let_def)

lemma analyze_point_prev_point:
  "analyze_point ms mt s p = Inr s' \<Longrightarrow> prev_point s' = Some p"
  by (auto simp: analyze_point_def split: option.splits sum.splits)

lemma analyze_point_returns:
  assumes "\<And>pp. prev_point s = Some pp \<Longrightarrow> seconds (timestamp p - timestamp pp) \<noteq> 0"
  shows "\<exists>s'. analyze_point ms mt s p = Inr s'"
proof (cases "prev_point s")
  case None
  then show ?thesis by (simp add: analyze_point_def)
next
  case (Some pp)
  with assms have "seconds (timestamp p - timestamp pp) \<noteq> 0" by simp
  then show ?thesis using Some
    by (simp add: analyze_point_def get_speed_from_points_def get_speed_def)
qed

lemma analyze_returns:
  assumes "successively (\<lambda>p q. seconds (timestamp q - timestamp p) \<noteq> 0) (ps :: Point list)"
    and "\<And>pp. prev_point s = Some pp \<Longrightarrow> ps \<noteq> [] \<Longrightarrow> seconds (timestamp (hd ps) - timestamp pp) \<noteq> 0"
  shows "\<exists>s'. analyze ms mt s ps = Inr s'"
  using assms
proof (induction ps arbitrary: s)
  case Nil
  then show ?case by simp
next
  case (Cons p ps)
  have "\<exists>s1. analyze_point ms mt s p = Inr s1"
    using Cons.prems(2) by (intro analyze_point_returns) simp
  then obtain s1 where 1: "analyze_point ms mt s p = Inr s1" ..
  have prev: "prev_point s1 = Some p" using 1 by (rule analyze_point_prev_point)
  have "successively (\<lambda>p q. seconds (timestamp q - timestamp p) \<noteq> 0) ps"
    using Cons.prems(1) by (cases ps) simp_all
  moreover have "seconds (timestamp (hd ps) - timestamp pp) \<noteq> 0"
    if "prev_point s1 = Some pp" "ps \<noteq> []" for pp
    using that prev Cons.prems(1) by (cases ps) simp_all
  ultimately have "\<exists>s'. analyze ms mt s1 ps = Inr s'" by (rule Cons.IH)
  then show ?case using 1 by simp
qed

lemma buckets_from_anchor:
  "b \<in> set (buckets_from buf raw) \<Longrightarrow> hd b \<in> set buf \<union> set raw"
  using concat_buckets_from [of buf raw] buckets_from_nonempty [of buf raw]
  by (metis UN_I hd_in_set set_append set_concat)

lemma get_point_timestamps:
  "p \<in> set (get_point raw) \<Longrightarrow> timestamp p \<in> timestamp ` set raw"
  using buckets_from_anchor [of _ "[]" raw]
  by (auto simp: get_point_def get_point_from_buckets timestamp_averaged)

lemma seconds_nonzero:
  assumes "POINT_INTERVAL_TIME \<le> d" and "d < timedelta_hours 24"
  shows "seconds d \<noteq> 0"
proof -
  have "10 \<le> d div 1000000" "d div 1000000 < 86400"
    using assms by (simp_all add: POINT_INTERVAL_TIME_def timedelta_seconds_def timedelta_hours_def)
  then show ?thesis by (simp add: seconds_def)
qed

lemma get_stop_points_returns:
  assumes "\<forall>p\<in>set raw. \<forall>q\<in>set raw. timestamp q - timestamp p < timedelta_hours 24"
  shows "\<exists>r. get_stop_points_with ms mt raw = Inr r"
proof -
  have "successively (\<lambda>p q. POINT_INTERVAL_TIME \<le> timestamp q - timestamp p
          \<and> p \<in> set (get_point raw) \<and> q \<in> set (get_point raw)) (get_point raw)"
    using get_point_separated [of raw]
    by (auto simp: successively_conv_nth)
  then have "successively (\<lambda>p q. seconds (timestamp q - timestamp p) \<noteq> 0) (get_point raw)"
  proof (rule successively_mono)
    fix p q
    assume "POINT_INTERVAL_TIME \<le> timestamp q - timestamp p
          \<and> p \<in> set (get_point raw) \<and> q \<in> set (get_point raw)"
    then have "POINT_INTERVAL_TIME \<le> timestamp q - timestamp p"
      and "timestamp q - timestamp p < timedelta_hours 24"
      using assms get_point_timestamps [of p raw] get_point_timestamps [of q raw] by auto
    then show "seconds (timestamp q - timestamp p) \<noteq> 0" by (rule seconds_nonzero)
  qed
  then have "\<exists>s'. analyze ms mt analyzer_init (get_point raw) = Inr s'"
    by (rule analyze_returns) (simp add: analyzer_init_def)
  then show ?thesis by (auto simp: get_stop_points_with_def)
qed

lemma analyze_point_extends:
  assumes "stop_point s = Some sp" and "prev_point s = Some pp"
    and "get_speed_from_points pp p = Inr v" and "v < ms"
  shows "\<exists>s'. analyze_point ms mt s p = Inr s'
           \<and> stop_point s' = Some (sp\<lparr>end_time := timestamp p + TIME_ZONE_DIFF\<rparr>)
           \<and> stop_points s' = stop_points s"
  using assms by (simp add: analyze_point_def classify_def)

lemma resampled_never_simultaneous:
  "successively (\<lambda>p q. timestamp p \<noteq> timestamp q) (get_point raw)"
  by (rule successively_mono [OF get_point_separated [of raw]])
    (simp_all add: POINT_INTERVAL_TIME_def timedelta_seconds_def)

end
